theory Spec2Isabelle
  imports Main "HOL-Library.Sublist" "HOL-Library.Char_ord" "HOL-Library.List_Lexorder"
    "HOL-Library.Multiset"
begin

section \<open>The remote hosting API as seen by \<^verbatim>\<open>src/index.ts\<close>\<close>

text \<open>
  A JavaScript string is modelled as a \<^typ>\<open>string\<close>; each \<^typ>\<open>char\<close> stands for one
  code unit below 256, so that the order of \<^verbatim>\<open>Array.prototype.sort\<close> (code unit by code
  unit, a proper prefix first) is the lexicographic order of \<^typ>\<open>string\<close>.

  \<^verbatim>\<open>octokit.repos.getContent\<close> either throws or resolves to a response whose \<^verbatim>\<open>data\<close> is an
  array of objects (a directory listing), one object (a file, a symlink, a submodule), or
  something without properties. The code reads four properties of an object:
  \<^verbatim>\<open>path\<close>, \<^verbatim>\<open>type\<close>, \<^verbatim>\<open>content\<close> and \<^verbatim>\<open>encoding\<close>; the last three may be missing,
  which \<^verbatim>\<open>'type' in response.data\<close> and its two siblings test.
\<close>

record obj =
  path :: string
  type :: "string option"
  content :: "string option"
  encoding :: "string option"

datatype data = Arr "obj list" | Obj obj | Nullish

datatype error = Error string

type_synonym response = "error + data"

text \<open>
  The client: owner, repo and path to what the call does. \<open>Inl\<close> is a thrown error.
  Within one request the remote answers the same call in the same way.
\<close>

type_synonym remote = "string \<Rightarrow> string \<Rightarrow> string \<Rightarrow> response"

text \<open>
  \<^verbatim>\<open>Buffer.from(content, 'base64').toString('utf-8')\<close> is library code; it is a parameter
  of the model. \<open>Inl\<close> is a throw inside the \<^verbatim>\<open>try\<close> block of \<^verbatim>\<open>getFileContent\<close>,
  which its \<^verbatim>\<open>catch\<close> block would take. The decoder of the library is lenient: it skips
  what is not of the base64 alphabet and returns a string for every string.
\<close>

type_synonym decoder = "string \<Rightarrow> error + string"

text \<open>
  One line of the diagnostic channel, as the two \<^verbatim>\<open>catch\<close> blocks write it:
  \<^verbatim>\<open>console.error(message, error)\<close>. The two wrappers of the remote call return the lines
  they write next to their value; their callers read the value only.
\<close>

type_synonym diag = "string \<times> error"

section \<open>\<^verbatim>\<open>getRepoContents\<close> and \<^verbatim>\<open>getFileContent\<close>\<close>

definition getRepoContents :: "remote \<Rightarrow> string \<Rightarrow> string \<Rightarrow> string \<Rightarrow> diag list \<times> obj list" where
  "getRepoContents octokit owner repo p =
     (case octokit owner repo p of
        Inr (Arr items) \<Rightarrow> ([], items)
      | Inr (Obj d) \<Rightarrow> (if obj.type d \<noteq> None then ([], [d]) else ([], []))
      | Inr Nullish \<Rightarrow> ([], [])
      | Inl e \<Rightarrow>
          ([(''Error getting repo contents for '' @ owner @ ''/'' @ repo @ ''/'' @ p @ '':'', e)],
           []))"

text \<open>
  \<^verbatim>\<open>'content' in response.data\<close> is false on an array and throws a \<^verbatim>\<open>TypeError\<close> on
  \<^verbatim>\<open>null\<close> or \<^verbatim>\<open>undefined\<close>; the \<^verbatim>\<open>catch\<close> block takes the throw, so both end in
  \<^verbatim>\<open>null\<close>, the second with a line on the diagnostic channel.
\<close>

definition getFileContent ::
  "remote \<Rightarrow> decoder \<Rightarrow> string \<Rightarrow> string \<Rightarrow> string \<Rightarrow> diag list \<times> string option" where
  "getFileContent octokit decode owner repo p =
     (let caught = (\<lambda>e.
            ([(''Error getting file content for '' @ owner @ ''/'' @ repo @ ''/'' @ p @ '':'', e)],
             None))
      in case octokit owner repo p of
           Inl e \<Rightarrow> caught e
         | Inr Nullish \<Rightarrow> caught (Error ''TypeError'')
         | Inr (Arr items) \<Rightarrow> ([], None)
         | Inr (Obj d) \<Rightarrow>
             (case (obj.content d, obj.encoding d) of
                (Some c, Some enc) \<Rightarrow>
                  (if enc = ''base64''
                   then (case decode c of Inr s \<Rightarrow> ([], Some s) | Inl e \<Rightarrow> caught e)
                   else ([], None))
              | _ \<Rightarrow> ([], None)))"

section \<open>\<^verbatim>\<open>getAllFiles\<close>\<close>

text \<open>An element of the walker's result, \<^verbatim>\<open>{ path: string, type: string }\<close>.\<close>

record flat_file =
  path :: string
  type :: string

text \<open>
  The \<^verbatim>\<open>for\<close> loop of \<^verbatim>\<open>getAllFiles\<close> over the items still to visit, with \<^verbatim>\<open>allFiles\<close>
  as it stands. The recursive call of \<^verbatim>\<open>getAllFiles\<close> on a directory is the loop started
  on that directory's listing with an empty \<^verbatim>\<open>allFiles\<close>. Nothing bounds the recursion:
  a remote that lists a directory inside itself makes the walk run forever, which is the
  value \<open>None\<close>.
\<close>

partial_function (option) getAllFiles_loop ::
  "remote \<Rightarrow> string \<Rightarrow> string \<Rightarrow> obj list \<Rightarrow> flat_file list \<Rightarrow> flat_file list option" where
  "getAllFiles_loop octokit owner repo contents allFiles =
     (case contents of
        [] \<Rightarrow> Some allFiles
      | item # rest \<Rightarrow>
          if obj.type item = Some ''file''
          then getAllFiles_loop octokit owner repo rest
                 (allFiles @ [\<lparr>flat_file.path = obj.path item, flat_file.type = ''file''\<rparr>])
          else if obj.type item = Some ''dir''
          then Option.bind
                 (getAllFiles_loop octokit owner repo
                    (snd (getRepoContents octokit owner repo (obj.path item))) [])
                 (\<lambda>subFiles. getAllFiles_loop octokit owner repo rest (allFiles @ subFiles))
          else getAllFiles_loop octokit owner repo rest allFiles)"

declare getAllFiles_loop.simps [code]

definition getAllFiles :: "remote \<Rightarrow> string \<Rightarrow> string \<Rightarrow> string \<Rightarrow> flat_file list option" where
  "getAllFiles octokit owner repo p =
     getAllFiles_loop octokit owner repo (snd (getRepoContents octokit owner repo p)) []"

section \<open>The library functions the handlers call\<close>

text \<open>\<^verbatim>\<open>String.prototype.includes\<close>: the argument occurs somewhere in the string.\<close>

fun str_includes :: "string \<Rightarrow> string \<Rightarrow> bool" where
  "str_includes [] sub = (sub = [])"
| "str_includes (c # s) sub = (prefix sub (c # s) \<or> str_includes s sub)"

text \<open>
  \<^verbatim>\<open>String.prototype.split\<close> with a separator of one character: the pieces between the
  separators, one piece more than there are separators.
\<close>

fun str_split :: "char \<Rightarrow> string \<Rightarrow> string list" where
  "str_split sep [] = [[]]"
| "str_split sep (c # s) =
     (if c = sep then [] # str_split sep s
      else (case str_split sep s of
              [] \<Rightarrow> [[c]]
            | piece # pieces \<Rightarrow> (c # piece) # pieces))"

text \<open>\<^verbatim>\<open>Array.prototype.pop\<close>, its value only: \<^verbatim>\<open>undefined\<close> on the empty array.\<close>

definition arr_pop :: "'a list \<Rightarrow> 'a option" where
  "arr_pop xs = (if xs = [] then None else Some (last xs))"

text \<open>\<^verbatim>\<open>x || ''\<close> on a string or \<^verbatim>\<open>undefined\<close>: the empty string is falsy as well.\<close>

definition or_empty :: "string option \<Rightarrow> string" where
  "or_empty x = (case x of None \<Rightarrow> [] | Some s \<Rightarrow> (if s = [] then [] else s))"

text \<open>
  \<^verbatim>\<open>Array.prototype.slice(start, end)\<close> on integers: a negative index counts from the
  end, and both are clamped to the array.
\<close>

definition arr_slice :: "'a list \<Rightarrow> int \<Rightarrow> int \<Rightarrow> 'a list" where
  "arr_slice xs start stop =
     (let len = int (length xs);
          k = (if start < 0 then max (len + start) 0 else min start len);
          final = (if stop < 0 then max (len + stop) 0 else min stop len)
      in take (nat (final - k)) (drop (nat k) xs))"

text \<open>\<^verbatim>\<open>Array.prototype.join\<close> on an array of strings.\<close>

fun arr_join :: "string \<Rightarrow> string list \<Rightarrow> string" where
  "arr_join sep [] = []"
| "arr_join sep [x] = x"
| "arr_join sep (x # y # ys) = x @ sep @ arr_join sep (y # ys)"

section \<open>The handler of \<^verbatim>\<open>get-repo-context\<close>\<close>

text \<open>
  A handler returns \<^verbatim>\<open>{ content: [{ type: "text", text }] }\<close> on every path; the model
  returns the \<^verbatim>\<open>text\<close>. Inside the handlers' \<^verbatim>\<open>try\<close> blocks the two wrappers above take
  every throw of the remote call themselves and the remaining steps are total on the typed
  values of the model, so the handlers' own \<^verbatim>\<open>catch\<close> blocks have no branch here. A
  handler that awaits a walk that runs forever returns nothing: \<open>None\<close>.

  \<^verbatim>\<open>maxFiles\<close> is a \<^verbatim>\<open>z.number()\<close>; the model has its integer values.
\<close>

text \<open>The callback of \<^verbatim>\<open>allFiles.filter\<close>.\<close>

definition keepFile :: "string list \<Rightarrow> string list \<Rightarrow> flat_file \<Rightarrow> bool" where
  "keepFile excludePaths fileExtensions file' =
     (if list_ex (\<lambda>excludePath. str_includes (flat_file.path file') excludePath) excludePaths
      then False
      else if length fileExtensions > 0
      then (let extension = or_empty (arr_pop (str_split CHR ''.'' (flat_file.path file')))
            in extension \<in> set fileExtensions)
      else True)"

text \<open>\<^verbatim>\<open>filteredFiles\<close> after its second assignment: the filter, then the slice.\<close>

definition filteredFiles :: "int \<Rightarrow> string list \<Rightarrow> string list \<Rightarrow> flat_file list \<Rightarrow> flat_file list" where
  "filteredFiles maxFiles fileExtensions excludePaths allFiles =
     arr_slice (filter (keepFile excludePaths fileExtensions) allFiles) 0 maxFiles"

text \<open>An element of \<^verbatim>\<open>fileContents\<close>, \<^verbatim>\<open>{ path: string; content: string | null }\<close>.\<close>

record file_content =
  path :: string
  content :: "string option"

text \<open>The loop that fills \<^verbatim>\<open>fileContents\<close>.\<close>

fun fileContents ::
  "remote \<Rightarrow> decoder \<Rightarrow> string \<Rightarrow> string \<Rightarrow> flat_file list \<Rightarrow> file_content list" where
  "fileContents octokit decode owner repo [] = []"
| "fileContents octokit decode owner repo (file' # files) =
     (if flat_file.type file' = ''file''
      then \<lparr>file_content.path = flat_file.path file',
            file_content.content =
              snd (getFileContent octokit decode owner repo (flat_file.path file'))\<rparr>
           # fileContents octokit decode owner repo files
      else fileContents octokit decode owner repo files)"

text \<open>The template of one block; it is applied to records whose content is not \<^verbatim>\<open>null\<close>.\<close>

definition block :: "file_content \<Rightarrow> string" where
  "block fc =
     ''File: '' @ file_content.path fc @ ''\<newline>\<newline>```\<newline>''
       @ (case file_content.content fc of Some c \<Rightarrow> c | None \<Rightarrow> ''null'')
       @ ''\<newline>```\<newline>\<newline>''"

definition formattedContent :: "file_content list \<Rightarrow> string" where
  "formattedContent fcs =
     arr_join ''---\<newline>\<newline>''
       (map block (filter (\<lambda>fc. file_content.content fc \<noteq> None) fcs))"

definition get_repo_context ::
  "remote \<Rightarrow> decoder \<Rightarrow> string \<Rightarrow> string \<Rightarrow> int option \<Rightarrow> string list option
     \<Rightarrow> string list option \<Rightarrow> string option" where
  "get_repo_context octokit decode owner repo maxFiles' fileExtensions' excludePaths' =
     (let maxFiles = (case maxFiles' of None \<Rightarrow> 50 | Some n \<Rightarrow> n);
          fileExtensions = (case fileExtensions' of None \<Rightarrow> [] | Some l \<Rightarrow> l);
          excludePaths =
            (case excludePaths' of None \<Rightarrow> [''node_modules'', ''dist'', ''build''] | Some l \<Rightarrow> l)
      in Option.bind (getAllFiles octokit owner repo [])
           (\<lambda>allFiles.
              Some (''Repository Context for '' @ owner @ ''/'' @ repo @ '':\<newline>\<newline>''
                    @ formattedContent
                        (fileContents octokit decode owner repo
                           (filteredFiles maxFiles fileExtensions excludePaths allFiles)))))"

section \<open>The handlers of \<^verbatim>\<open>get-file-content\<close> and \<^verbatim>\<open>get-repo-structure\<close>\<close>

text \<open>\<^verbatim>\<open>!content\<close> holds of \<^verbatim>\<open>null\<close> and of the empty string.\<close>

definition get_file_content :: "remote \<Rightarrow> decoder \<Rightarrow> string \<Rightarrow> string \<Rightarrow> string \<Rightarrow> string" where
  "get_file_content octokit decode owner repo p =
     (case snd (getFileContent octokit decode owner repo p) of
        None \<Rightarrow> ''Could not retrieve content for '' @ p @ '' in '' @ owner @ ''/'' @ repo
      | Some c \<Rightarrow>
          (if c = [] then ''Could not retrieve content for '' @ p @ '' in '' @ owner @ ''/'' @ repo
           else ''File: '' @ p @ ''\<newline>\<newline>```\<newline>'' @ c @ ''\<newline>```''))"

definition get_repo_structure :: "remote \<Rightarrow> string \<Rightarrow> string \<Rightarrow> string option" where
  "get_repo_structure octokit owner repo =
     Option.bind (getAllFiles octokit owner repo [])
       (\<lambda>allFiles.
          Some (''Repository Structure for '' @ owner @ ''/'' @ repo @ '':\<newline>\<newline>''
                @ arr_join ''\<newline>'' (sort (map flat_file.path allFiles))))"

section \<open>Directory trees and the remotes that serve them\<close>

text \<open>
  A repository tree as the listings describe it: every node carries its full path. A
  node that is neither a file nor a directory keeps the \<^verbatim>\<open>type\<close> the listing gives it
  (a symlink, a submodule, or none).
\<close>

datatype tree = File string | Dir string "tree list" | Other string "string option"

fun node_path :: "tree \<Rightarrow> string" where
  "node_path (File p) = p"
| "node_path (Dir p cs) = p"
| "node_path (Other p ty) = p"

fun node_type :: "tree \<Rightarrow> string option" where
  "node_type (File p) = Some ''file''"
| "node_type (Dir p cs) = Some ''dir''"
| "node_type (Other p ty) = ty"

text \<open>A listing entry describes a node: same path, same type.\<close>

definition describes :: "obj \<Rightarrow> tree \<Rightarrow> bool" where
  "describes item t = (obj.path item = node_path t \<and> obj.type item = node_type t)"

text \<open>
  The remote \<open>q\<close> (owner and repo fixed) serves the tree, except that the call throws
  at the directories whose path is in \<open>F\<close>: every other directory's call resolves to
  an array that describes its children in order.
\<close>

fun serves :: "string set \<Rightarrow> (string \<Rightarrow> response) \<Rightarrow> tree \<Rightarrow> bool" where
  "serves F q (File p) = True"
| "serves F q (Other p ty) = (ty \<noteq> Some ''file'' \<and> ty \<noteq> Some ''dir'')"
| "serves F q (Dir p cs) =
     (if p \<in> F then isl (q p)
      else (case q p of
              Inr (Arr items) \<Rightarrow> list_all2 describes items cs \<and> (\<forall>c \<in> set cs. serves F q c)
            | _ \<Rightarrow> False))"

text \<open>
  The file paths of a tree in depth-first pre-order: the children of a directory from
  left to right, a file as itself, a subdirectory as the files below it, and nothing
  below a directory whose path is in \<open>F\<close>.
\<close>

fun preorder :: "string set \<Rightarrow> tree \<Rightarrow> string list" where
  "preorder F (File p) = [p]"
| "preorder F (Other p ty) = []"
| "preorder F (Dir p cs) = (if p \<in> F then [] else concat (map (preorder F) cs))"

text \<open>The paths of the file nodes, of the directory nodes, and of all nodes.\<close>

fun file_nodes :: "tree \<Rightarrow> string set" where
  "file_nodes (File p) = {p}"
| "file_nodes (Other p ty) = {}"
| "file_nodes (Dir p cs) = (\<Union>c \<in> set cs. file_nodes c)"

fun dir_nodes :: "tree \<Rightarrow> string set" where
  "dir_nodes (File p) = {}"
| "dir_nodes (Other p ty) = {}"
| "dir_nodes (Dir p cs) = insert p (\<Union>c \<in> set cs. dir_nodes c)"

fun other_nodes :: "tree \<Rightarrow> string set" where
  "other_nodes (File p) = {}"
| "other_nodes (Other p ty) = {p}"
| "other_nodes (Dir p cs) = (\<Union>c \<in> set cs. other_nodes c)"

fun node_paths :: "tree \<Rightarrow> string list" where
  "node_paths (File p) = [p]"
| "node_paths (Other p ty) = [p]"
| "node_paths (Dir p cs) = p # concat (map node_paths cs)"

definition as_file :: "string \<Rightarrow> flat_file" where
  "as_file p = \<lparr>flat_file.path = p, flat_file.type = ''file''\<rparr>"

text \<open>The tree with everything below the directory at \<open>d\<close> removed.\<close>

fun prune :: "string \<Rightarrow> tree \<Rightarrow> tree" where
  "prune d (File p) = File p"
| "prune d (Other p ty) = Other p ty"
| "prune d (Dir p cs) = (if p = d then Dir p [] else Dir p (map (prune d) cs))"

section \<open>The words of the specification\<close>

text \<open>
  The final dot-separated segment of a path, as the specification names it: what follows
  the last dot, or the whole path when it has no dot.
\<close>

definition final_segment :: "string \<Rightarrow> string" where
  "final_segment p = rev (takeWhile (\<lambda>c. c \<noteq> CHR ''.'') (rev p))"

section \<open>A small repository\<close>

text \<open>
  The repository of the specification's scenario, with a \<^verbatim>\<open>Makefile\<close> and a symlink
  added. \<^verbatim>\<open>src/b.js\<close> is an empty file, and the API declares the encoding \<^verbatim>\<open>none\<close> for
  the \<^verbatim>\<open>Makefile\<close>, as it does for a file too large to inline.
\<close>

definition entry :: "string \<Rightarrow> string \<Rightarrow> obj" where
  "entry p ty = \<lparr>obj.path = p, obj.type = Some ty, obj.content = None, obj.encoding = None\<rparr>"

definition blob :: "string \<Rightarrow> string \<Rightarrow> string \<Rightarrow> obj" where
  "blob p c enc =
     \<lparr>obj.path = p, obj.type = Some ''file'', obj.content = Some c, obj.encoding = Some enc\<rparr>"

definition demo_entries :: "tree list" where
  "demo_entries =
     [Dir ''src'' [File ''src/a.ts'', File ''src/b.js''],
      Dir ''node_modules'' [File ''node_modules/c.js''],
      File ''README.md'',
      File ''Makefile'',
      Other ''latest'' (Some ''symlink'')]"

definition demo_tree :: tree where
  "demo_tree = Dir [] demo_entries"

definition demo_remote :: remote where
  "demo_remote owner repo p =
     (if p = [] then
        Inr (Arr [entry ''src'' ''dir'', entry ''node_modules'' ''dir'',
                  entry ''README.md'' ''file'', entry ''Makefile'' ''file'',
                  entry ''latest'' ''symlink''])
      else if p = ''src'' then
        Inr (Arr [entry ''src/a.ts'' ''file'', entry ''src/b.js'' ''file''])
      else if p = ''node_modules'' then
        Inr (Arr [entry ''node_modules/c.js'' ''file''])
      else if p = ''README.md'' then Inr (Obj (blob p ''aGk='' ''base64''))
      else if p = ''src/a.ts'' then Inr (Obj (blob p ''eA=='' ''base64''))
      else if p = ''src/b.js'' then Inr (Obj (blob p [] ''base64''))
      else if p = ''node_modules/c.js'' then Inr (Obj (blob p ''eQ=='' ''base64''))
      else if p = ''Makefile'' then Inr (Obj (blob p [] ''none''))
      else Inl (Error ''Not Found''))"

text \<open>The same repository on a day when the listing of \<^verbatim>\<open>src\<close> fails.\<close>

definition demo_remote_failing :: remote where
  "demo_remote_failing owner repo p =
     (if p = ''src'' then Inl (Error ''Server Error'') else demo_remote owner repo p)"

text \<open>
  The base64 decoder on the contents of the examples: \<^verbatim>\<open>hi\<close>, \<^verbatim>\<open>x\<close>, \<^verbatim>\<open>y\<close> and
  nothing, and \<^verbatim>\<open>hi\<close> again for \<^verbatim>\<open>%%%aGk=\<close>, where the decoder of the library skips
  the three characters that are not of the base64 alphabet. On a string that decoder
  always returns; the table has no other content, and no statement below reaches one.
\<close>

definition demo_decode :: decoder where
  "demo_decode c =
     (if c = [] then Inr []
      else if c = ''aGk='' then Inr ''hi''
      else if c = ''eA=='' then Inr ''x''
      else if c = ''eQ=='' then Inr ''y''
      else if c = ''%%%aGk='' then Inr ''hi''
      else Inl (Error ''not in the table''))"


section \<open>The walker on a tree\<close>

text \<open>The equations of the loop, one for each branch of its body.\<close>

lemma loop_Nil: "getAllFiles_loop r ow rp [] acc = Some acc"
  by (subst getAllFiles_loop.simps) simp

lemma loop_file:
  "obj.type item = Some ''file'' \<Longrightarrow>
   getAllFiles_loop r ow rp (item # rest) acc =
     getAllFiles_loop r ow rp rest (acc @ [as_file (obj.path item)])"
  by (subst getAllFiles_loop.simps) (simp add: as_file_def)

lemma loop_dir:
  "obj.type item = Some ''dir'' \<Longrightarrow>
   getAllFiles_loop r ow rp (item # rest) acc =
     Option.bind (getAllFiles r ow rp (obj.path item))
       (\<lambda>subFiles. getAllFiles_loop r ow rp rest (acc @ subFiles))"
  by (subst getAllFiles_loop.simps) (simp add: getAllFiles_def)

lemma loop_other:
  "obj.type item \<noteq> Some ''file'' \<Longrightarrow> obj.type item \<noteq> Some ''dir'' \<Longrightarrow>
   getAllFiles_loop r ow rp (item # rest) acc = getAllFiles_loop r ow rp rest acc"
  by (subst getAllFiles_loop.simps) simp

text \<open>
  Visiting an entry that describes a served node appends the node's pre-order to
  \<^verbatim>\<open>allFiles\<close> and goes on with the rest of the listing.
\<close>

lemma loop_children:
  assumes "list_all2 describes items cs"
    and "\<And>c item rest acc. c \<in> set cs \<Longrightarrow> describes item c \<Longrightarrow>
           getAllFiles_loop r ow rp (item # rest) acc =
             getAllFiles_loop r ow rp rest (acc @ map as_file (preorder F c))"
  shows "getAllFiles_loop r ow rp items acc =
           Some (acc @ map as_file (concat (map (preorder F) cs)))"
  using assms
proof (induction items cs arbitrary: acc rule: list_all2_induct)
  case Nil
  then show ?case by (simp add: loop_Nil)
next
  case (Cons item items c cs)
  have "getAllFiles_loop r ow rp (item # items) acc =
          getAllFiles_loop r ow rp items (acc @ map as_file (preorder F c))"
    using Cons.prems Cons.hyps(1) by simp
  also have "\<dots> = Some ((acc @ map as_file (preorder F c)) @ map as_file (concat (map (preorder F) cs)))"
    using Cons.IH Cons.prems by simp
  finally show ?case by simp
qed

lemma loop_node:
  "serves F (r ow rp) t \<Longrightarrow> describes item t \<Longrightarrow>
   getAllFiles_loop r ow rp (item # rest) acc =
     getAllFiles_loop r ow rp rest (acc @ map as_file (preorder F t))"
proof (induction t arbitrary: item rest acc)
  case (File p)
  then show ?case by (simp add: describes_def loop_file)
next
  case (Other p ty)
  then show ?case by (simp add: describes_def loop_other)
next
  case (Dir p cs)
  have ty: "obj.type item = Some ''dir''" and pa: "obj.path item = p"
    using Dir.prems(2) by (simp_all add: describes_def)
  show ?case
  proof (cases "p \<in> F")
    case True
    with Dir.prems(1) obtain e where "r ow rp p = Inl e" by (cases "r ow rp p") auto
    then have "getAllFiles r ow rp p = Some []"
      by (simp add: getAllFiles_def getRepoContents_def loop_Nil)
    with True show ?thesis by (simp add: loop_dir ty pa)
  next
    case False
    with Dir.prems(1) obtain items where q: "r ow rp p = Inr (Arr items)"
      and d: "list_all2 describes items cs" and s: "\<forall>c \<in> set cs. serves F (r ow rp) c"
      by (auto split: sum.splits data.splits)
    have "getAllFiles_loop r ow rp items [] = Some ([] @ map as_file (concat (map (preorder F) cs)))"
      using d s Dir.IH by (intro loop_children) auto
    then have "getAllFiles r ow rp p = Some (map as_file (concat (map (preorder F) cs)))"
      by (simp add: getAllFiles_def getRepoContents_def q)
    with False show ?thesis by (simp add: loop_dir ty pa)
  qed
qed

lemma walk_tree:
  assumes "serves F (r ow rp) (Dir p cs)"
  shows "getAllFiles r ow rp p = Some (map as_file (preorder F (Dir p cs)))"
proof (cases "p \<in> F")
  case True
  with assms obtain e where "r ow rp p = Inl e" by (cases "r ow rp p") auto
  with True show ?thesis by (simp add: getAllFiles_def getRepoContents_def loop_Nil)
next
  case False
  with assms obtain items where q: "r ow rp p = Inr (Arr items)"
    and d: "list_all2 describes items cs" and s: "\<forall>c \<in> set cs. serves F (r ow rp) c"
    by (auto split: sum.splits data.splits)
  have "getAllFiles_loop r ow rp items [] = Some ([] @ map as_file (concat (map (preorder F) cs)))"
    using d s by (intro loop_children loop_node) auto
  with False show ?thesis by (simp add: getAllFiles_def getRepoContents_def q)
qed

subsection \<open>Paths of a tree\<close>

lemma set_preorder: "set (preorder {} t) = file_nodes t"
  by (induction t) auto

lemma preorder_subset: "set (preorder F t) \<subseteq> file_nodes t"
  by (induction t) auto

lemma file_nodes_subset: "file_nodes t \<subseteq> set (node_paths t)"
  by (induction t) auto

lemma dir_nodes_subset: "dir_nodes t \<subseteq> set (node_paths t)"
  by (induction t) auto

lemma other_nodes_subset: "other_nodes t \<subseteq> set (node_paths t)"
  by (induction t) auto

lemma distinct_concat_preorder:
  assumes "distinct (concat (map node_paths cs))"
    and "\<And>c. c \<in> set cs \<Longrightarrow> distinct (node_paths c) \<Longrightarrow> distinct (preorder F c)"
  shows "distinct (concat (map (preorder F) cs))"
  using assms
proof (induction cs)
  case Nil
  then show ?case by simp
next
  case (Cons c cs)
  have "set (preorder F c) \<subseteq> set (node_paths c)"
    using preorder_subset file_nodes_subset by blast
  moreover have "set (concat (map (preorder F) cs)) \<subseteq> set (concat (map node_paths cs))"
    using preorder_subset file_nodes_subset by fastforce
  moreover have "set (node_paths c) \<inter> set (concat (map node_paths cs)) = {}"
    using Cons.prems(1) by simp
  ultimately have "set (preorder F c) \<inter> set (concat (map (preorder F) cs)) = {}"
    by blast
  moreover have "distinct (preorder F c)" using Cons.prems by simp
  moreover have "distinct (concat (map (preorder F) cs))" using Cons by simp
  ultimately show ?case by simp
qed

lemma distinct_preorder: "distinct (node_paths t) \<Longrightarrow> distinct (preorder F t)"
proof (induction t)
  case (Dir p cs)
  then show ?case by (auto intro: distinct_concat_preorder)
qed simp_all

lemma disjoint_children:
  assumes "distinct (concat (map node_paths cs))"
    and "\<And>c. c \<in> set cs \<Longrightarrow> distinct (node_paths c) \<Longrightarrow> A c \<inter> B c = {}"
    and "\<And>c. A c \<subseteq> set (node_paths c)" and "\<And>c. B c \<subseteq> set (node_paths c)"
  shows "(\<Union>c \<in> set cs. A c) \<inter> (\<Union>c \<in> set cs. B c) = {}"
  using assms(1,2)
proof (induction cs)
  case Nil
  then show ?case by simp
next
  case (Cons c cs)
  have 1: "A c \<inter> B c = {}" using Cons.prems by simp
  have 2: "(\<Union>c \<in> set cs. A c) \<inter> (\<Union>c \<in> set cs. B c) = {}" using Cons by simp
  have 3: "set (node_paths c) \<inter> set (concat (map node_paths cs)) = {}" using Cons.prems(1) by simp
  have 4: "(\<Union>c \<in> set cs. A c) \<subseteq> set (concat (map node_paths cs))" using assms(3) by auto
  have 5: "(\<Union>c \<in> set cs. B c) \<subseteq> set (concat (map node_paths cs))" using assms(4) by auto
  have 6: "A c \<inter> (\<Union>c \<in> set cs. B c) = {}" using 3 5 assms(3)[of c] by blast
  have 7: "(\<Union>c \<in> set cs. A c) \<inter> B c = {}" using 3 4 assms(4)[of c] by blast
  show ?case using 1 2 6 7 by (simp add: Int_Un_distrib Int_Un_distrib2)
qed

lemma files_not_dirs: "distinct (node_paths t) \<Longrightarrow> file_nodes t \<inter> dir_nodes t = {}"
proof (induction t)
  case (Dir p cs)
  have "(\<Union>c \<in> set cs. file_nodes c) \<inter> (\<Union>c \<in> set cs. dir_nodes c) = {}"
    using Dir by (intro disjoint_children file_nodes_subset dir_nodes_subset) auto
  moreover have "p \<notin> (\<Union>c \<in> set cs. file_nodes c)"
    using Dir.prems file_nodes_subset by fastforce
  ultimately show ?case by simp
qed simp_all

lemma files_not_others: "distinct (node_paths t) \<Longrightarrow> file_nodes t \<inter> other_nodes t = {}"
proof (induction t)
  case (Dir p cs)
  have "(\<Union>c \<in> set cs. file_nodes c) \<inter> (\<Union>c \<in> set cs. other_nodes c) = {}"
    using Dir by (intro disjoint_children file_nodes_subset other_nodes_subset) auto
  then show ?case by simp
qed simp_all

lemma preorder_no_failure: "F \<inter> dir_nodes t = {} \<Longrightarrow> preorder F t = preorder {} t"
proof (induction t)
  case (Dir p cs)
  have "map (preorder F) cs = map (preorder {}) cs"
    using Dir by (intro map_cong) auto
  then have "concat (map (preorder F) cs) = concat (map (preorder {}) cs)"
    by (rule arg_cong)
  moreover have "p \<notin> F" using Dir.prems by auto
  ultimately show ?case by (simp del: map_eq_conv)
qed simp_all

lemma prune_absent: "d \<notin> dir_nodes t \<Longrightarrow> prune d t = t"
proof (induction t)
  case (Dir p cs)
  have "map (prune d) cs = map (\<lambda>c. c) cs"
    using Dir by (intro map_cong) auto
  then have "map (prune d) cs = cs" by (simp del: map_eq_conv)
  moreover have "p \<noteq> d" using Dir.prems by auto
  ultimately show ?case by (simp del: map_eq_conv)
qed simp_all

lemma preorder_prune: "preorder {d} t = preorder {} (prune d t)"
proof (induction t)
  case (Dir p cs)
  have "map (preorder {d}) cs = map (preorder {} \<circ> prune d) cs"
    using Dir by (intro map_cong) auto
  then have "concat (map (preorder {d}) cs) = concat (map (preorder {} \<circ> prune d) cs)"
    by (rule arg_cong)
  then show ?case by (simp del: map_eq_conv)
qed simp_all

lemma path_as_file: "map flat_file.path (map as_file ps) = ps"
  by (induction ps) (simp_all add: as_file_def)

lemma type_as_file: "f \<in> set (map as_file ps) \<Longrightarrow> flat_file.type f = ''file''"
  by (auto simp: as_file_def)

subsection \<open>The small repository\<close>

lemma demo_serves: "serves {} (demo_remote ''o'' ''r'') (Dir [] demo_entries)"
  by (simp add: demo_entries_def demo_remote_def describes_def entry_def)

lemma demo_failing_serves: "serves {''src''} (demo_remote_failing ''o'' ''r'') (Dir [] demo_entries)"
  by (simp add: demo_entries_def demo_remote_failing_def demo_remote_def describes_def entry_def)

lemma demo_distinct: "distinct (node_paths (Dir [] demo_entries))"
  by (simp add: demo_entries_def)

lemma demo_preorder:
  "preorder {} (Dir [] demo_entries) =
     [''src/a.ts'', ''src/b.js'', ''node_modules/c.js'', ''README.md'', ''Makefile'']"
  by (simp add: demo_entries_def)

lemma demo_walk:
  "getAllFiles demo_remote ''o'' ''r'' [] =
     Some (map as_file
             [''src/a.ts'', ''src/b.js'', ''node_modules/c.js'', ''README.md'', ''Makefile''])"
  using walk_tree [of "{}" demo_remote "''o''" "''r''" "[]" demo_entries, OF demo_serves]
  unfolding demo_preorder .

lemma demo_sort:
  "sort [''src/a.ts'', ''src/b.js'', ''node_modules/c.js'', ''README.md'', ''Makefile''] =
     [''Makefile'', ''README.md'', ''node_modules/c.js'', ''src/a.ts'', ''src/b.js'']"
  by code_simp

lemma demo_contents:
  "formattedContent
     (fileContents demo_remote demo_decode ''o'' ''r'' (map as_file [''src/a.ts''])) =
   ''File: src/a.ts\<newline>\<newline>```\<newline>x\<newline>```\<newline>\<newline>''"
  by (simp add: demo_remote_def blob_def demo_decode_def getFileContent_def
      formattedContent_def block_def as_file_def)

lemma demo_records:
  "fileContents demo_remote demo_decode ''o'' ''r''
     (map as_file [''src/a.ts'', ''src/b.js'', ''README.md'', ''Makefile'']) =
   [\<lparr>file_content.path = ''src/a.ts'', file_content.content = Some ''x''\<rparr>,
    \<lparr>file_content.path = ''src/b.js'', file_content.content = Some []\<rparr>,
    \<lparr>file_content.path = ''README.md'', file_content.content = Some ''hi''\<rparr>,
    \<lparr>file_content.path = ''Makefile'', file_content.content = None\<rparr>]"
  by (simp add: demo_remote_def blob_def demo_decode_def getFileContent_def as_file_def)

lemma demo_kept_records:
  "filter (\<lambda>fc. file_content.content fc \<noteq> None)
     (fileContents demo_remote demo_decode ''o'' ''r''
        (map as_file [''src/a.ts'', ''src/b.js'', ''README.md'', ''Makefile''])) =
   [\<lparr>file_content.path = ''src/a.ts'', file_content.content = Some ''x''\<rparr>,
    \<lparr>file_content.path = ''src/b.js'', file_content.content = Some []\<rparr>,
    \<lparr>file_content.path = ''README.md'', file_content.content = Some ''hi''\<rparr>]"
  unfolding demo_records by simp

lemma demo_filtered:
  "filteredFiles 50 [] [''node_modules'']
     (map as_file [''src/a.ts'', ''src/b.js'', ''node_modules/c.js'', ''README.md'', ''Makefile''])
   = map as_file [''src/a.ts'', ''src/b.js'', ''README.md'', ''Makefile'']"
  by (simp add: filteredFiles_def arr_slice_def keepFile_def as_file_def)

lemma demo_filtered_default:
  "filteredFiles 50 [] [''node_modules'', ''dist'', ''build'']
     (map as_file [''src/a.ts'', ''src/b.js'', ''node_modules/c.js'', ''README.md'', ''Makefile''])
   = map as_file [''src/a.ts'', ''src/b.js'', ''README.md'', ''Makefile'']"
  by (simp add: filteredFiles_def arr_slice_def keepFile_def as_file_def)

lemma demo_rendered:
  "arr_join ''---\<newline>\<newline>''
     (map block
        [\<lparr>file_content.path = ''src/a.ts'', file_content.content = Some ''x''\<rparr>,
         \<lparr>file_content.path = ''src/b.js'', file_content.content = Some []\<rparr>,
         \<lparr>file_content.path = ''README.md'', file_content.content = Some ''hi''\<rparr>]) =
   ''File: src/a.ts\<newline>\<newline>```\<newline>x\<newline>```\<newline>\<newline>---\<newline>\<newline>File: src/b.js\<newline>\<newline>```\<newline>\<newline>```\<newline>\<newline>---\<newline>\<newline>File: README.md\<newline>\<newline>```\<newline>hi\<newline>```\<newline>\<newline>''"
  by (simp add: block_def)

lemma demo_loop_symlink:
  "obj.type (entry ''latest'' ''symlink'') \<noteq> Some ''file'' \<and>
   obj.type (entry ''latest'' ''symlink'') \<noteq> Some ''dir''"
  by (simp add: entry_def)

section \<open>Strings, slices and the steps of the handlers\<close>

lemma str_includes_sublist: "str_includes s sub \<longleftrightarrow> sublist sub s"
  by (induction s) (simp_all add: sublist_Cons_right)

lemma str_includes_iff: "str_includes s sub \<longleftrightarrow> (\<exists>pre post. s = pre @ sub @ post)"
  by (simp add: str_includes_sublist sublist_def)

lemma str_split_not_Nil: "str_split sep s \<noteq> []"
  by (induction s) (auto split: list.splits)

lemma str_split_no_sep: "sep \<notin> set s \<Longrightarrow> str_split sep s = [s]"
  by (induction s) auto

lemma str_split_append:
  "str_split sep (xs @ sep # ys) = str_split sep xs @ str_split sep ys"
proof (induction xs)
  case Nil
  show ?case by simp
next
  case (Cons c xs)
  obtain piece pieces where "str_split sep xs = piece # pieces"
    using str_split_not_Nil [of sep xs] by (cases "str_split sep xs") auto
  with Cons show ?case by simp
qed

lemma last_str_split_append:
  "last (str_split sep (xs @ sep # ys)) = last (str_split sep ys)"
  by (simp add: str_split_append str_split_not_Nil)

lemma final_segment_no_dot:
  assumes "CHR ''.'' \<notin> set p"
  shows "final_segment p = p"
proof -
  have "takeWhile (\<lambda>c. c \<noteq> CHR ''.'') (rev p) = rev p"
    using assms by (auto simp: takeWhile_eq_all_conv)
  then show ?thesis unfolding final_segment_def by (simp only: rev_rev_ident)
qed

lemma final_segment_after_dot:
  assumes "CHR ''.'' \<notin> set seg"
  shows "final_segment (pre @ CHR ''.'' # seg) = seg"
proof -
  have "takeWhile (\<lambda>c. c \<noteq> CHR ''.'') (rev seg @ CHR ''.'' # rev pre) = rev seg"
    using assms by (subst takeWhile_append2) auto
  moreover have "rev (pre @ CHR ''.'' # seg) = rev seg @ CHR ''.'' # rev pre" by simp
  ultimately show ?thesis unfolding final_segment_def by (simp only: rev_rev_ident)
qed

lemma last_str_split: "last (str_split CHR ''.'' p) = final_segment p"
proof (cases "CHR ''.'' \<in> set p")
  case False
  then show ?thesis by (simp add: str_split_no_sep final_segment_no_dot)
next
  case True
  then obtain pre seg where p: "p = pre @ CHR ''.'' # seg" and n: "CHR ''.'' \<notin> set seg"
    by (auto dest: split_list_last)
  show ?thesis
    unfolding p last_str_split_append final_segment_after_dot [OF n]
    using n by (simp add: str_split_no_sep)
qed

lemma extension_final_segment:
  "or_empty (arr_pop (str_split CHR ''.'' p)) = final_segment p"
  by (simp add: or_empty_def arr_pop_def str_split_not_Nil last_str_split)

lemma arr_slice_take:
  assumes "0 \<le> N"
  shows "arr_slice xs 0 N = take (nat N) xs"
proof (cases "N \<le> int (length xs)")
  case True
  with assms show ?thesis by (simp add: arr_slice_def min_def)
next
  case False
  with assms show ?thesis by (simp add: arr_slice_def min_def)
qed

lemma set_arr_slice: "set (arr_slice xs start stop) \<subseteq> set xs"
  unfolding arr_slice_def Let_def
  by (meson set_take_subset set_drop_subset subset_trans)

lemma set_filteredFiles:
  "set (filteredFiles maxFiles fileExtensions excludePaths allFiles)
     \<subseteq> {f \<in> set allFiles. keepFile excludePaths fileExtensions f}"
  unfolding filteredFiles_def using set_arr_slice [of "filter (keepFile excludePaths fileExtensions) allFiles" 0 maxFiles]
  by auto

lemma set_fileContents:
  "file_content.path ` set (fileContents octokit decode owner repo fs) \<subseteq> flat_file.path ` set fs"
  by (induction fs) auto

lemma context_paths:
  "set (map file_content.path
          (fileContents octokit decode owner repo
             (filteredFiles maxFiles fileExtensions excludePaths allFiles)))
   \<subseteq> set (map flat_file.path allFiles)"
  using set_fileContents [of octokit decode owner repo
          "filteredFiles maxFiles fileExtensions excludePaths allFiles"]
    set_filteredFiles [of maxFiles fileExtensions excludePaths allFiles]
  unfolding set_map by blast

lemma keepFile_not_excluded:
  "keepFile excludePaths fileExtensions f \<Longrightarrow>
   \<not> (\<exists>e \<in> set excludePaths. \<exists>pre post. flat_file.path f = pre @ e @ post)"
  by (auto simp: keepFile_def list_ex_iff str_includes_iff split: if_splits)

lemma rendered_not_excluded:
  assumes "rec \<in> set (filter (\<lambda>fc. file_content.content fc \<noteq> None)
             (fileContents octokit decode owner repo
                (filteredFiles maxFiles fileExtensions excludePaths allFiles)))"
    and "e \<in> set excludePaths"
  shows "\<not> (\<exists>pre post. file_content.path rec = pre @ e @ post)"
proof -
  from assms(1) have "file_content.path rec \<in>
      file_content.path ` set (fileContents octokit decode owner repo
                (filteredFiles maxFiles fileExtensions excludePaths allFiles))"
    by auto
  then obtain f where f: "f \<in> set (filteredFiles maxFiles fileExtensions excludePaths allFiles)"
    and p: "file_content.path rec = flat_file.path f"
    using set_fileContents [of octokit decode owner repo
        "filteredFiles maxFiles fileExtensions excludePaths allFiles"] by auto
  from f have "keepFile excludePaths fileExtensions f"
    using set_filteredFiles [of maxFiles fileExtensions excludePaths allFiles] by auto
  from keepFile_not_excluded [OF this] assms(2) show ?thesis unfolding p by blast
qed

lemma get_repo_context_eq:
  assumes "getAllFiles octokit owner repo [] = Some allFiles"
  shows "get_repo_context octokit decode owner repo maxFiles' fileExtensions' excludePaths' =
           Some (''Repository Context for '' @ owner @ ''/'' @ repo @ '':\<newline>\<newline>''
                 @ formattedContent
                     (fileContents octokit decode owner repo
                        (filteredFiles (case maxFiles' of None \<Rightarrow> 50 | Some n \<Rightarrow> n)
                           (case fileExtensions' of None \<Rightarrow> [] | Some l \<Rightarrow> l)
                           (case excludePaths' of
                              None \<Rightarrow> [''node_modules'', ''dist'', ''build''] | Some l \<Rightarrow> l)
                           allFiles)))"
  using assms by (simp add: get_repo_context_def)

lemma get_repo_structure_eq:
  assumes "getAllFiles octokit owner repo [] = Some allFiles"
  shows "get_repo_structure octokit owner repo =
           Some (''Repository Structure for '' @ owner @ ''/'' @ repo @ '':\<newline>\<newline>''
                 @ arr_join ''\<newline>'' (sort (map flat_file.path allFiles)))"
  using assms by (simp add: get_repo_structure_def)


section \<open>The walk is the pre-order of the files\<close>

text \<open>
  C1. When the remote serves a directory tree whose nodes have distinct paths,
  \<^verbatim>\<open>getAllFiles\<close> on the root returns; the paths of its result are the file paths of the
  tree in depth-first pre-order, they are exactly the set of the tree's file paths,
  none occurs twice, none is the path of a directory, and every record has the type
  \<^verbatim>\<open>file\<close>.
\<close>

theorem getAllFiles_preorder:
  assumes "serves {} (octokit owner repo) (Dir root cs)"
    and "distinct (node_paths (Dir root cs))"
  shows "\<exists>allFiles. getAllFiles octokit owner repo root = Some allFiles
           \<and> map flat_file.path allFiles = preorder {} (Dir root cs)
           \<and> set (map flat_file.path allFiles) = file_nodes (Dir root cs)
           \<and> distinct (map flat_file.path allFiles)
           \<and> set (map flat_file.path allFiles) \<inter> dir_nodes (Dir root cs) = {}
           \<and> (\<forall>f \<in> set allFiles. flat_file.type f = ''file'')"
proof -
  let ?t = "Dir root cs"
  let ?fs = "map as_file (preorder {} ?t)"
  have w: "getAllFiles octokit owner repo root = Some ?fs"
    using assms(1) by (rule walk_tree)
  have p: "map flat_file.path ?fs = preorder {} ?t" by (rule path_as_file)
  have s: "set (map flat_file.path ?fs) = file_nodes ?t"
    unfolding p by (rule set_preorder)
  have d: "distinct (map flat_file.path ?fs)"
    unfolding p using assms(2) by (rule distinct_preorder)
  have n: "set (map flat_file.path ?fs) \<inter> dir_nodes ?t = {}"
    unfolding s using assms(2) by (rule files_not_dirs)
  have ty: "\<forall>f \<in> set ?fs. flat_file.type f = ''file''"
    using type_as_file by blast
  from w p s d n ty show ?thesis by blast
qed

theorem getAllFiles_preorder_witness:
  "serves {} (demo_remote ''o'' ''r'') demo_tree \<and> distinct (node_paths demo_tree) \<and>
   (\<exists>allFiles. getAllFiles demo_remote ''o'' ''r'' [] = Some allFiles \<and>
      map flat_file.path allFiles =
        [''src/a.ts'', ''src/b.js'', ''node_modules/c.js'', ''README.md'', ''Makefile''])"
proof -
  obtain allFiles where "getAllFiles demo_remote ''o'' ''r'' [] = Some allFiles"
    and "map flat_file.path allFiles = preorder {} (Dir [] demo_entries)"
    using getAllFiles_preorder [of demo_remote "''o''" "''r''" "[]" demo_entries,
        OF demo_serves demo_distinct]
    by (elim exE conjE)
  then show ?thesis
    using demo_serves demo_distinct unfolding demo_tree_def demo_preorder by (intro conjI exI)
qed

section \<open>The extension filter\<close>

text \<open>
  C2, as amended. With a non-empty \<^verbatim>\<open>fileExtensions\<close> the filter retains a file if and
  only if no element of \<^verbatim>\<open>excludePaths\<close> occurs in its path and the final dot-separated
  segment of the path is one of the listed extensions. The final segment of a path
  without a dot is the whole path, and the final segment of a path that ends in a dot
  and a dot-free text is that text.
\<close>

theorem extension_filter_final_segment:
  assumes "fileExtensions \<noteq> []"
  shows "(keepFile excludePaths fileExtensions f \<longleftrightarrow>
            \<not> (\<exists>e \<in> set excludePaths. str_includes (flat_file.path f) e)
            \<and> final_segment (flat_file.path f) \<in> set fileExtensions)
         \<and> (CHR ''.'' \<notin> set (flat_file.path f) \<longrightarrow>
              final_segment (flat_file.path f) = flat_file.path f)
         \<and> (\<forall>pre seg. flat_file.path f = pre @ ''.'' @ seg \<and> CHR ''.'' \<notin> set seg \<longrightarrow>
              final_segment (flat_file.path f) = seg)"
proof -
  have "keepFile excludePaths fileExtensions f \<longleftrightarrow>
            \<not> (\<exists>e \<in> set excludePaths. str_includes (flat_file.path f) e)
            \<and> final_segment (flat_file.path f) \<in> set fileExtensions"
    using assms by (simp add: keepFile_def extension_final_segment list_ex_iff)
  moreover have "CHR ''.'' \<notin> set (flat_file.path f) \<longrightarrow>
              final_segment (flat_file.path f) = flat_file.path f"
    by (simp add: final_segment_no_dot)
  moreover have "\<forall>pre seg. flat_file.path f = pre @ ''.'' @ seg \<and> CHR ''.'' \<notin> set seg \<longrightarrow>
              final_segment (flat_file.path f) = seg"
    by (simp add: final_segment_after_dot)
  ultimately show ?thesis by (intro conjI)
qed

theorem extension_filter_final_segment_witness:
  "[''ts'', ''md''] \<noteq> [] \<and> final_segment ''src/a.ts'' = ''ts'' \<and>
   keepFile [''node_modules''] [''ts'', ''md''] (as_file ''src/a.ts'') \<and>
   CHR ''.'' \<notin> set ''Makefile'' \<and> final_segment ''Makefile'' = ''Makefile'' \<and>
   \<not> keepFile [''node_modules''] [''ts'', ''md''] (as_file ''Makefile'')"
proof -
  have h: "[''ts'', ''md''] \<noteq> []" by simp
  have a: "flat_file.path (as_file ''src/a.ts'') = ''src/a'' @ ''.'' @ ''ts'' \<and> CHR ''.'' \<notin> set ''ts''"
    by (simp add: as_file_def)
  have b: "CHR ''.'' \<notin> set (flat_file.path (as_file ''Makefile''))"
    by (simp add: as_file_def)
  note t1 = extension_filter_final_segment [OF h, of "[''node_modules'']" "as_file ''src/a.ts''"]
  note t2 = extension_filter_final_segment [OF h, of "[''node_modules'']" "as_file ''Makefile''"]
  have "final_segment (flat_file.path (as_file ''src/a.ts'')) = ''ts''"
    using t1 [THEN conjunct2, THEN conjunct2] a by blast
  then have 1: "final_segment ''src/a.ts'' = ''ts''"
    by (simp add: as_file_def)
  have 2: "final_segment ''Makefile'' = ''Makefile''"
    using t2 [THEN conjunct2, THEN conjunct1] b by (simp add: as_file_def)
  have 3: "keepFile [''node_modules''] [''ts'', ''md''] (as_file ''src/a.ts'')"
    using t1 [THEN conjunct1] 1 by (simp add: as_file_def)
  have 4: "\<not> keepFile [''node_modules''] [''ts'', ''md''] (as_file ''Makefile'')"
    using t2 [THEN conjunct1] 2 by (simp add: as_file_def)
  from h 1 2 3 4 show ?thesis by simp
qed

text \<open>
  The extension the code computes for \<^verbatim>\<open>Makefile\<close>, a path without a dot, is
  \<^verbatim>\<open>Makefile\<close> and not the empty string, and the filter retains the file when the
  non-empty list of extensions names it.
\<close>

theorem no_dot_path_retained:
  "CHR ''.'' \<notin> set ''Makefile'' \<and> [''Makefile''] \<noteq> [] \<and>
   or_empty (arr_pop (str_split CHR ''.'' ''Makefile'')) = ''Makefile'' \<and>
   keepFile [] [''Makefile''] \<lparr>flat_file.path = ''Makefile'', flat_file.type = ''file''\<rparr>"
  by (simp add: keepFile_def or_empty_def arr_pop_def)

section \<open>Filter first, then a prefix\<close>

text \<open>
  C3. For \<^verbatim>\<open>maxFiles = N\<close> with \<open>0 \<le> N\<close>, the files selected are the first \<open>N\<close> of
  the files that pass the filter, in the order of the walk: at most \<open>N\<close> records, a
  prefix of the filtered list, the filter applied before the cut; and these are the
  files whose contents \<^verbatim>\<open>get-repo-context\<close> fetches and renders.
\<close>

theorem filteredFiles_prefix:
  assumes "0 \<le> N"
  shows "filteredFiles N fileExtensions excludePaths allFiles =
           take (nat N) (filter (keepFile excludePaths fileExtensions) allFiles)
         \<and> length (filteredFiles N fileExtensions excludePaths allFiles) \<le> nat N
         \<and> prefix (filteredFiles N fileExtensions excludePaths allFiles)
              (filter (keepFile excludePaths fileExtensions) allFiles)
         \<and> (getAllFiles octokit owner repo [] = Some allFiles \<longrightarrow>
              get_repo_context octokit decode owner repo
                  (Some N) (Some fileExtensions) (Some excludePaths) =
                Some (''Repository Context for '' @ owner @ ''/'' @ repo @ '':\<newline>\<newline>''
                      @ formattedContent
                          (fileContents octokit decode owner repo
                             (take (nat N)
                                (filter (keepFile excludePaths fileExtensions) allFiles)))))"
proof -
  have 1: "filteredFiles N fileExtensions excludePaths allFiles =
           take (nat N) (filter (keepFile excludePaths fileExtensions) allFiles)"
    using assms by (simp add: filteredFiles_def arr_slice_take)
  have 2: "length (filteredFiles N fileExtensions excludePaths allFiles) \<le> nat N"
    unfolding 1 by simp
  have 3: "prefix (filteredFiles N fileExtensions excludePaths allFiles)
              (filter (keepFile excludePaths fileExtensions) allFiles)"
    unfolding 1 by (rule take_is_prefix)
  have 4: "getAllFiles octokit owner repo [] = Some allFiles \<longrightarrow>
              get_repo_context octokit decode owner repo
                  (Some N) (Some fileExtensions) (Some excludePaths) =
                Some (''Repository Context for '' @ owner @ ''/'' @ repo @ '':\<newline>\<newline>''
                      @ formattedContent
                          (fileContents octokit decode owner repo
                             (take (nat N)
                                (filter (keepFile excludePaths fileExtensions) allFiles))))"
    by (simp add: get_repo_context_eq 1)
  from 1 2 3 4 show ?thesis by (intro conjI)
qed

theorem filteredFiles_prefix_witness:
  "(0::int) \<le> 1 \<and>
   filter (keepFile [''node_modules''] [''ts'', ''md''])
     (map as_file [''src/a.ts'', ''src/b.js'', ''node_modules/c.js'', ''README.md'', ''Makefile''])
     = map as_file [''src/a.ts'', ''README.md''] \<and>
   filteredFiles 1 [''ts'', ''md''] [''node_modules'']
     (map as_file [''src/a.ts'', ''src/b.js'', ''node_modules/c.js'', ''README.md'', ''Makefile''])
     = map as_file [''src/a.ts''] \<and>
   get_repo_context demo_remote demo_decode ''o'' ''r''
       (Some 1) (Some [''ts'', ''md'']) (Some [''node_modules'']) =
     Some ''Repository Context for o/r:\<newline>\<newline>File: src/a.ts\<newline>\<newline>```\<newline>x\<newline>```\<newline>\<newline>''"
proof -
  let ?all = "map as_file
      [''src/a.ts'', ''src/b.js'', ''node_modules/c.js'', ''README.md'', ''Makefile'']"
  have h: "(0::int) \<le> 1" by simp
  have f: "filter (keepFile [''node_modules''] [''ts'', ''md'']) ?all =
             map as_file [''src/a.ts'', ''README.md'']"
    by (simp add: keepFile_def as_file_def or_empty_def arr_pop_def)
  note t = filteredFiles_prefix [OF h, of "[''ts'', ''md'']" "[''node_modules'']" ?all
      demo_remote "''o''" "''r''" demo_decode]
  have 1: "filteredFiles 1 [''ts'', ''md''] [''node_modules''] ?all = map as_file [''src/a.ts'']"
    using t [THEN conjunct1] unfolding f by simp
  have "get_repo_context demo_remote demo_decode ''o'' ''r''
       (Some 1) (Some [''ts'', ''md'']) (Some [''node_modules'']) =
     Some (''Repository Context for '' @ ''o'' @ ''/'' @ ''r'' @ '':\<newline>\<newline>''
           @ formattedContent (fileContents demo_remote demo_decode ''o'' ''r''
               (take (nat 1) (filter (keepFile [''node_modules''] [''ts'', ''md'']) ?all))))"
    using t [THEN conjunct2, THEN conjunct2, THEN conjunct2] demo_walk by (rule mp)
  also have "take (nat 1) (filter (keepFile [''node_modules''] [''ts'', ''md'']) ?all) =
      map as_file [''src/a.ts'']"
    unfolding f by simp
  finally have 2: "get_repo_context demo_remote demo_decode ''o'' ''r''
       (Some 1) (Some [''ts'', ''md'']) (Some [''node_modules'']) =
     Some ''Repository Context for o/r:\<newline>\<newline>File: src/a.ts\<newline>\<newline>```\<newline>x\<newline>```\<newline>\<newline>''"
    unfolding demo_contents by simp
  from h f 1 2 show ?thesis by (intro conjI)
qed

section \<open>Excluded paths\<close>

text \<open>
  C4. Without an extension list the filter drops a file if and only if some element of
  \<^verbatim>\<open>excludePaths\<close> occurs in its path as a substring, anywhere in the path; with an
  extension list a retained file still has no such substring; and the text that
  \<^verbatim>\<open>get-repo-context\<close> returns is the header followed by the blocks of exactly the
  records the handler keeps, the fetched contents of the selected files that are not
  \<^verbatim>\<open>null\<close>, and the path of none of them contains an element of \<^verbatim>\<open>excludePaths\<close>.
\<close>

theorem excludePaths_substring:
  "(keepFile excludePaths [] f \<longleftrightarrow>
      \<not> (\<exists>e \<in> set excludePaths. \<exists>pre post. flat_file.path f = pre @ e @ post))
   \<and> (keepFile excludePaths fileExtensions f \<longrightarrow>
      \<not> (\<exists>e \<in> set excludePaths. \<exists>pre post. flat_file.path f = pre @ e @ post))
   \<and> (getAllFiles octokit owner repo [] = Some allFiles \<longrightarrow>
      (let records =
             filter (\<lambda>fc. file_content.content fc \<noteq> None)
               (fileContents octokit decode owner repo
                  (filteredFiles (case maxFiles' of None \<Rightarrow> 50 | Some n \<Rightarrow> n)
                     (case fileExtensions' of None \<Rightarrow> [] | Some l \<Rightarrow> l) excludePaths allFiles))
       in get_repo_context octokit decode owner repo maxFiles' fileExtensions' (Some excludePaths) =
            Some (''Repository Context for '' @ owner @ ''/'' @ repo @ '':\<newline>\<newline>''
                  @ arr_join ''---\<newline>\<newline>'' (map block records))
          \<and> (\<forall>rec \<in> set records. \<forall>e \<in> set excludePaths.
                \<not> (\<exists>pre post. file_content.path rec = pre @ e @ post))))"
proof -
  have 1: "keepFile excludePaths [] f \<longleftrightarrow>
      \<not> (\<exists>e \<in> set excludePaths. \<exists>pre post. flat_file.path f = pre @ e @ post)"
    by (simp add: keepFile_def list_ex_iff str_includes_iff)
  have 2: "keepFile excludePaths fileExtensions f \<longrightarrow>
      \<not> (\<exists>e \<in> set excludePaths. \<exists>pre post. flat_file.path f = pre @ e @ post)"
    using keepFile_not_excluded by blast
  let ?records = "filter (\<lambda>fc. file_content.content fc \<noteq> None)
             (fileContents octokit decode owner repo
                (filteredFiles (case maxFiles' of None \<Rightarrow> 50 | Some n \<Rightarrow> n)
                   (case fileExtensions' of None \<Rightarrow> [] | Some l \<Rightarrow> l) excludePaths allFiles))"
  have 3: "getAllFiles octokit owner repo [] = Some allFiles \<longrightarrow>
       get_repo_context octokit decode owner repo maxFiles' fileExtensions' (Some excludePaths) =
            Some (''Repository Context for '' @ owner @ ''/'' @ repo @ '':\<newline>\<newline>''
                  @ arr_join ''---\<newline>\<newline>'' (map block ?records))
          \<and> (\<forall>rec \<in> set ?records. \<forall>e \<in> set excludePaths.
                \<not> (\<exists>pre post. file_content.path rec = pre @ e @ post))"
  proof
    assume w: "getAllFiles octokit owner repo [] = Some allFiles"
    have "get_repo_context octokit decode owner repo maxFiles' fileExtensions' (Some excludePaths) =
           Some (''Repository Context for '' @ owner @ ''/'' @ repo @ '':\<newline>\<newline>''
                 @ arr_join ''---\<newline>\<newline>'' (map block ?records))"
      unfolding get_repo_context_eq [OF w] formattedContent_def by simp
    moreover have "\<forall>rec \<in> set ?records. \<forall>e \<in> set excludePaths.
               \<not> (\<exists>pre post. file_content.path rec = pre @ e @ post)"
      using rendered_not_excluded by blast
    ultimately show "get_repo_context octokit decode owner repo maxFiles' fileExtensions' (Some excludePaths) =
            Some (''Repository Context for '' @ owner @ ''/'' @ repo @ '':\<newline>\<newline>''
                  @ arr_join ''---\<newline>\<newline>'' (map block ?records))
          \<and> (\<forall>rec \<in> set ?records. \<forall>e \<in> set excludePaths.
                \<not> (\<exists>pre post. file_content.path rec = pre @ e @ post))"
      by (rule conjI)
  qed
  from 1 2 3 show ?thesis unfolding Let_def by (intro conjI)
qed

theorem excludePaths_substring_witness:
  "keepFile [''node_modules''] [''ts''] (as_file ''src/a.ts'') \<and>
   \<not> (\<exists>pre post. ''src/a.ts'' = pre @ ''node_modules'' @ post) \<and>
   \<not> keepFile [''node_modules''] [] (as_file ''node_modules/c.js'') \<and>
   getAllFiles demo_remote ''o'' ''r'' [] =
     Some (map as_file
             [''src/a.ts'', ''src/b.js'', ''node_modules/c.js'', ''README.md'', ''Makefile'']) \<and>
   get_repo_context demo_remote demo_decode ''o'' ''r'' None None (Some [''node_modules'']) =
     Some ''Repository Context for o/r:\<newline>\<newline>File: src/a.ts\<newline>\<newline>```\<newline>x\<newline>```\<newline>\<newline>---\<newline>\<newline>File: src/b.js\<newline>\<newline>```\<newline>\<newline>```\<newline>\<newline>---\<newline>\<newline>File: README.md\<newline>\<newline>```\<newline>hi\<newline>```\<newline>\<newline>''"
proof -
  let ?all = "map as_file
      [''src/a.ts'', ''src/b.js'', ''node_modules/c.js'', ''README.md'', ''Makefile'']"
  note t1 = excludePaths_substring [where excludePaths = "[''node_modules'']"
      and fileExtensions = "[''ts'']" and f = "as_file ''src/a.ts''"]
  note t2 = excludePaths_substring [where excludePaths = "[''node_modules'']"
      and f = "as_file ''node_modules/c.js''" and octokit = demo_remote and owner = "''o''"
      and repo = "''r''" and decode = demo_decode and maxFiles' = None and fileExtensions' = None
      and allFiles = ?all]
  have 1: "keepFile [''node_modules''] [''ts''] (as_file ''src/a.ts'')"
    by (simp add: keepFile_def as_file_def or_empty_def arr_pop_def)
  have 2: "\<not> (\<exists>pre post. ''src/a.ts'' = pre @ ''node_modules'' @ post)"
    using t1 [THEN conjunct2, THEN conjunct1] 1 by (simp add: as_file_def)
  have "\<exists>pre post. flat_file.path (as_file ''node_modules/c.js'') = pre @ ''node_modules'' @ post"
    by (rule exI [of _ "[]"], rule exI [of _ "''/c.js''"]) (simp add: as_file_def)
  then have "\<exists>e \<in> set [''node_modules'']. \<exists>pre post.
      flat_file.path (as_file ''node_modules/c.js'') = pre @ e @ post"
    by simp
  then have 3: "\<not> keepFile [''node_modules''] [] (as_file ''node_modules/c.js'')"
    using t2 [THEN conjunct1] by blast
  have "get_repo_context demo_remote demo_decode ''o'' ''r'' None None (Some [''node_modules'']) =
      Some (''Repository Context for '' @ ''o'' @ ''/'' @ ''r'' @ '':\<newline>\<newline>''
            @ arr_join ''---\<newline>\<newline>''
                (map block
                   (filter (\<lambda>fc. file_content.content fc \<noteq> None)
                      (fileContents demo_remote demo_decode ''o'' ''r''
                         (filteredFiles 50 [] [''node_modules''] ?all)))))"
    using t2 [THEN conjunct2, THEN conjunct2, THEN mp, OF demo_walk]
    unfolding Let_def option.case by (rule conjunct1)
  then have 4: "get_repo_context demo_remote demo_decode ''o'' ''r'' None None (Some [''node_modules'']) =
     Some ''Repository Context for o/r:\<newline>\<newline>File: src/a.ts\<newline>\<newline>```\<newline>x\<newline>```\<newline>\<newline>---\<newline>\<newline>File: src/b.js\<newline>\<newline>```\<newline>\<newline>```\<newline>\<newline>---\<newline>\<newline>File: README.md\<newline>\<newline>```\<newline>hi\<newline>```\<newline>\<newline>''"
    unfolding demo_filtered demo_kept_records demo_rendered by simp
  from 1 2 3 demo_walk 4 show ?thesis by (intro conjI)
qed

section \<open>\<^verbatim>\<open>get-file-content\<close>\<close>

text \<open>
  C5. The handler tests \<^verbatim>\<open>!content\<close>. For \<^verbatim>\<open>src/b.js\<close>, an empty file,
  \<^verbatim>\<open>getFileContent\<close> returns the empty string, which is present, and the handler
  answers that the content could not be retrieved; \<^verbatim>\<open>get-repo-context\<close>, which tests
  \<^verbatim>\<open>content !== null\<close>, renders the same file as a block with an empty body.
\<close>

theorem empty_file_could_not_retrieve:
  "demo_remote ''o'' ''r'' ''src/b.js'' = Inr (Obj (blob ''src/b.js'' [] ''base64'')) \<and>
   snd (getFileContent demo_remote demo_decode ''o'' ''r'' ''src/b.js'') = Some [] \<and>
   get_file_content demo_remote demo_decode ''o'' ''r'' ''src/b.js'' =
     ''Could not retrieve content for src/b.js in o/r'' \<and>
   formattedContent
     (fileContents demo_remote demo_decode ''o'' ''r'' [as_file ''src/b.js'']) =
     ''File: src/b.js\<newline>\<newline>```\<newline>\<newline>```\<newline>\<newline>''"
  by (simp add: demo_remote_def blob_def demo_decode_def getFileContent_def get_file_content_def
      formattedContent_def block_def as_file_def)




section \<open>A failing listing\<close>

text \<open>
  C7. When the remote call of \<^verbatim>\<open>getRepoContents\<close> throws, the function writes one line
  to the diagnostic channel and returns the empty array, the value it returns for a
  directory that is empty, and a walk started there returns no files.
\<close>

theorem getRepoContents_fails_soft:
  assumes "octokit owner repo p = Inl e"
  shows "getRepoContents octokit owner repo p =
           ([(''Error getting repo contents for '' @ owner @ ''/'' @ repo @ ''/'' @ p @ '':'', e)], [])
         \<and> snd (getRepoContents octokit owner repo p) =
             snd (getRepoContents (\<lambda>owner repo p. Inr (Arr [])) owner repo p)
         \<and> getAllFiles octokit owner repo p = Some []"
  using assms by (simp add: getRepoContents_def getAllFiles_def loop_Nil)

theorem getRepoContents_fails_soft_witness:
  "demo_remote ''o'' ''r'' ''docs'' = Inl (Error ''Not Found'') \<and>
   getRepoContents demo_remote ''o'' ''r'' ''docs'' =
     ([(''Error getting repo contents for o/r/docs:'', Error ''Not Found'')], []) \<and>
   getAllFiles demo_remote ''o'' ''r'' ''docs'' = Some []"
proof -
  have h: "demo_remote ''o'' ''r'' ''docs'' = Inl (Error ''Not Found'')"
    by (simp add: demo_remote_def)
  show ?thesis
    using h getRepoContents_fails_soft [of demo_remote "''o''" "''r''" "''docs''", OF h]
    by simp
qed

text \<open>
  C8. When the remote serves a tree except that the listing of the directory at \<open>d\<close>
  throws, the walk of the root still returns: its result is the concatenation, child by
  child, of the pre-order of the child with everything below \<open>d\<close> removed. A child
  that does not contain \<open>d\<close> contributes all of its files, and the directory at
  \<open>d\<close> contributes none.
\<close>

theorem failing_subtree_only:
  assumes "serves {d} (octokit owner repo) (Dir root cs)" and "root \<noteq> d"
  shows "getAllFiles octokit owner repo root =
           Some (map as_file (concat (map (\<lambda>c. preorder {} (prune d c)) cs)))
         \<and> (\<forall>c \<in> set cs. d \<notin> dir_nodes c \<longrightarrow> preorder {} (prune d c) = preorder {} c)
         \<and> (\<forall>xs. preorder {} (prune d (Dir d xs)) = [])"
proof -
  have "getAllFiles octokit owner repo root = Some (map as_file (preorder {d} (Dir root cs)))"
    using assms(1) by (rule walk_tree)
  moreover have "map (preorder {d}) cs = map (\<lambda>c. preorder {} (prune d c)) cs"
    by (intro map_cong refl preorder_prune)
  ultimately have "getAllFiles octokit owner repo root =
      Some (map as_file (concat (map (\<lambda>c. preorder {} (prune d c)) cs)))"
    using assms(2) by (simp del: map_eq_conv)
  moreover have "\<forall>c \<in> set cs. d \<notin> dir_nodes c \<longrightarrow> preorder {} (prune d c) = preorder {} c"
    by (simp add: prune_absent)
  moreover have "\<forall>xs. preorder {} (prune d (Dir d xs)) = []" by simp
  ultimately show ?thesis by (intro conjI)
qed

theorem failing_subtree_only_witness:
  "serves {''src''} (demo_remote_failing ''o'' ''r'') demo_tree \<and> [] \<noteq> ''src'' \<and>
   getAllFiles demo_remote_failing ''o'' ''r'' [] =
     Some (map as_file [''node_modules/c.js'', ''README.md'', ''Makefile''])"
proof -
  have p: "concat (map (\<lambda>c. preorder {} (prune ''src'' c)) demo_entries) =
             [''node_modules/c.js'', ''README.md'', ''Makefile'']"
    by (simp add: demo_entries_def)
  have n: "[] \<noteq> ''src''" by simp
  show ?thesis
    using failing_subtree_only [of "''src''" demo_remote_failing "''o''" "''r''" "[]" demo_entries,
        OF demo_failing_serves n] demo_failing_serves
    unfolding demo_tree_def p by simp
qed

section \<open>\<^verbatim>\<open>get-repo-structure\<close>\<close>

text \<open>
  C9. When the walk returns, \<^verbatim>\<open>get-repo-structure\<close> returns its header followed by
  the paths of all the files of the walk, sorted and joined with newlines: the lines are
  in order and are the walker's paths with their multiplicities, none filtered and none
  cut. In the small repository the file below \<^verbatim>\<open>node_modules\<close> is one of the lines.
\<close>

theorem get_repo_structure_sorted:
  assumes "getAllFiles octokit owner repo [] = Some allFiles"
  shows "get_repo_structure octokit owner repo =
           Some (''Repository Structure for '' @ owner @ ''/'' @ repo @ '':\<newline>\<newline>''
                 @ arr_join ''\<newline>'' (sort (map flat_file.path allFiles)))
         \<and> sorted (sort (map flat_file.path allFiles))
         \<and> mset (sort (map flat_file.path allFiles)) = mset (map flat_file.path allFiles)"
  using assms by (simp add: get_repo_structure_def)

theorem get_repo_structure_sorted_witness:
  "getAllFiles demo_remote ''o'' ''r'' [] =
     Some (map as_file
             [''src/a.ts'', ''src/b.js'', ''node_modules/c.js'', ''README.md'', ''Makefile'']) \<and>
   get_repo_structure demo_remote ''o'' ''r'' =
     Some ''Repository Structure for o/r:\<newline>\<newline>Makefile\<newline>README.md\<newline>node_modules/c.js\<newline>src/a.ts\<newline>src/b.js''"
proof -
  have "get_repo_structure demo_remote ''o'' ''r'' =
     Some (''Repository Structure for '' @ ''o'' @ ''/'' @ ''r'' @ '':\<newline>\<newline>''
           @ arr_join ''\<newline>''
               (sort (map flat_file.path (map as_file
                  [''src/a.ts'', ''src/b.js'', ''node_modules/c.js'', ''README.md'', ''Makefile'']))))"
    using get_repo_structure_sorted [OF demo_walk] by (rule conjunct1)
  then have "get_repo_structure demo_remote ''o'' ''r'' =
     Some ''Repository Structure for o/r:\<newline>\<newline>Makefile\<newline>README.md\<newline>node_modules/c.js\<newline>src/a.ts\<newline>src/b.js''"
    unfolding path_as_file demo_sort by simp
  with demo_walk show ?thesis by (intro conjI)
qed

section \<open>Entries that are neither files nor directories\<close>

text \<open>
  C10. The loop skips an entry whose type is neither \<^verbatim>\<open>file\<close> nor \<^verbatim>\<open>dir\<close> and leaves
  \<^verbatim>\<open>allFiles\<close> as it is. On a served tree with distinct paths the walk returns the
  pre-order of the files, \<^verbatim>\<open>get-repo-context\<close> returns its header and the blocks of the
  records it keeps of the walk, \<^verbatim>\<open>get-repo-structure\<close> returns its header and the sorted
  paths of the walk as its lines, and the path of a node that is neither a file nor a
  directory is none of the walk's paths, none of the records' paths and none of the
  lines, whatever the arguments of the handlers.
\<close>

theorem other_types_dropped:
  assumes "serves {} (octokit owner repo) (Dir [] cs)"
    and "distinct (node_paths (Dir [] cs))"
  shows "(\<forall>item rest allFiles.
            obj.type item \<noteq> Some ''file'' \<longrightarrow> obj.type item \<noteq> Some ''dir'' \<longrightarrow>
            getAllFiles_loop octokit owner repo (item # rest) allFiles =
              getAllFiles_loop octokit owner repo rest allFiles)
         \<and> (let allFiles = map as_file (preorder {} (Dir [] cs));
                 records =
                   filter (\<lambda>fc. file_content.content fc \<noteq> None)
                     (fileContents octokit decode owner repo
                        (filteredFiles (case maxFiles' of None \<Rightarrow> 50 | Some n \<Rightarrow> n)
                           (case fileExtensions' of None \<Rightarrow> [] | Some l \<Rightarrow> l)
                           (case excludePaths' of
                              None \<Rightarrow> [''node_modules'', ''dist'', ''build''] | Some l \<Rightarrow> l)
                           allFiles));
                 lines = sort (map flat_file.path allFiles)
             in getAllFiles octokit owner repo [] = Some allFiles
                \<and> set (map flat_file.path allFiles) \<inter> other_nodes (Dir [] cs) = {}
                \<and> get_repo_context octokit decode owner repo maxFiles' fileExtensions' excludePaths' =
                    Some (''Repository Context for '' @ owner @ ''/'' @ repo @ '':\<newline>\<newline>''
                          @ arr_join ''---\<newline>\<newline>'' (map block records))
                \<and> set (map file_content.path records) \<inter> other_nodes (Dir [] cs) = {}
                \<and> get_repo_structure octokit owner repo =
                    Some (''Repository Structure for '' @ owner @ ''/'' @ repo @ '':\<newline>\<newline>''
                          @ arr_join ''\<newline>'' lines)
                \<and> set lines \<inter> other_nodes (Dir [] cs) = {})"
proof -
  let ?t = "Dir [] cs"
  let ?fs = "map as_file (preorder {} ?t)"
  let ?fcs = "fileContents octokit decode owner repo
                (filteredFiles (case maxFiles' of None \<Rightarrow> 50 | Some n \<Rightarrow> n)
                   (case fileExtensions' of None \<Rightarrow> [] | Some l \<Rightarrow> l)
                   (case excludePaths' of
                      None \<Rightarrow> [''node_modules'', ''dist'', ''build''] | Some l \<Rightarrow> l)
                   ?fs)"
  let ?records = "filter (\<lambda>fc. file_content.content fc \<noteq> None) ?fcs"
  have 1: "\<forall>item rest allFiles.
            obj.type item \<noteq> Some ''file'' \<longrightarrow> obj.type item \<noteq> Some ''dir'' \<longrightarrow>
            getAllFiles_loop octokit owner repo (item # rest) allFiles =
              getAllFiles_loop octokit owner repo rest allFiles"
    by (simp add: loop_other)
  have w: "getAllFiles octokit owner repo [] = Some ?fs"
    using assms(1) by (rule walk_tree)
  have "set (map flat_file.path ?fs) = file_nodes ?t"
    unfolding path_as_file by (rule set_preorder)
  then have o: "set (map flat_file.path ?fs) \<inter> other_nodes ?t = {}"
    using files_not_others [OF assms(2)] by simp
  have c: "get_repo_context octokit decode owner repo maxFiles' fileExtensions' excludePaths' =
             Some (''Repository Context for '' @ owner @ ''/'' @ repo @ '':\<newline>\<newline>''
                   @ arr_join ''---\<newline>\<newline>'' (map block ?records))"
    unfolding get_repo_context_eq [OF w] formattedContent_def by simp
  have "set (map file_content.path ?fcs) \<subseteq> set (map flat_file.path ?fs)"
    by (rule context_paths)
  moreover have "set (map file_content.path ?records) \<subseteq> set (map file_content.path ?fcs)"
    by auto
  ultimately have r: "set (map file_content.path ?records) \<inter> other_nodes ?t = {}"
    using o by blast
  have s: "get_repo_structure octokit owner repo =
             Some (''Repository Structure for '' @ owner @ ''/'' @ repo @ '':\<newline>\<newline>''
                   @ arr_join ''\<newline>'' (sort (map flat_file.path ?fs)))"
    using w by (rule get_repo_structure_eq)
  have l: "set (sort (map flat_file.path ?fs)) \<inter> other_nodes ?t = {}"
    using o by simp
  from 1 w o c r s l show ?thesis unfolding Let_def by (intro conjI)
qed

theorem other_types_dropped_witness:
  "serves {} (demo_remote ''o'' ''r'') demo_tree \<and> distinct (node_paths demo_tree) \<and>
   other_nodes demo_tree = {''latest''} \<and>
   getAllFiles_loop demo_remote ''o'' ''r'' [entry ''latest'' ''symlink''] [] = Some [] \<and>
   getAllFiles demo_remote ''o'' ''r'' [] =
     Some (map as_file
             [''src/a.ts'', ''src/b.js'', ''node_modules/c.js'', ''README.md'', ''Makefile'']) \<and>
   get_repo_context demo_remote demo_decode ''o'' ''r'' None None None =
     Some ''Repository Context for o/r:\<newline>\<newline>File: src/a.ts\<newline>\<newline>```\<newline>x\<newline>```\<newline>\<newline>---\<newline>\<newline>File: src/b.js\<newline>\<newline>```\<newline>\<newline>```\<newline>\<newline>---\<newline>\<newline>File: README.md\<newline>\<newline>```\<newline>hi\<newline>```\<newline>\<newline>'' \<and>
   get_repo_structure demo_remote ''o'' ''r'' =
     Some ''Repository Structure for o/r:\<newline>\<newline>Makefile\<newline>README.md\<newline>node_modules/c.js\<newline>src/a.ts\<newline>src/b.js''"
proof -
  let ?all = "map as_file
      [''src/a.ts'', ''src/b.js'', ''node_modules/c.js'', ''README.md'', ''Makefile'']"
  note t = other_types_dropped [of demo_remote "''o''" "''r''" demo_entries demo_decode None None None,
      OF demo_serves demo_distinct, unfolded Let_def option.case demo_preorder]
  have o: "other_nodes (Dir [] demo_entries) = {''latest''}"
    by (simp add: demo_entries_def)
  have "getAllFiles_loop demo_remote ''o'' ''r'' [entry ''latest'' ''symlink''] [] =
          getAllFiles_loop demo_remote ''o'' ''r'' [] []"
    using t [THEN conjunct1] demo_loop_symlink by blast
  then have 1: "getAllFiles_loop demo_remote ''o'' ''r'' [entry ''latest'' ''symlink''] [] = Some []"
    by (simp only: loop_Nil)
  have 2: "getAllFiles demo_remote ''o'' ''r'' [] = Some ?all"
    using t [THEN conjunct2] by (rule conjunct1)
  have "get_repo_context demo_remote demo_decode ''o'' ''r'' None None None =
      Some (''Repository Context for '' @ ''o'' @ ''/'' @ ''r'' @ '':\<newline>\<newline>''
            @ arr_join ''---\<newline>\<newline>''
                (map block
                   (filter (\<lambda>fc. file_content.content fc \<noteq> None)
                      (fileContents demo_remote demo_decode ''o'' ''r''
                         (filteredFiles 50 [] [''node_modules'', ''dist'', ''build''] ?all)))))"
    using t [THEN conjunct2, THEN conjunct2, THEN conjunct2] by (rule conjunct1)
  then have 3: "get_repo_context demo_remote demo_decode ''o'' ''r'' None None None =
     Some ''Repository Context for o/r:\<newline>\<newline>File: src/a.ts\<newline>\<newline>```\<newline>x\<newline>```\<newline>\<newline>---\<newline>\<newline>File: src/b.js\<newline>\<newline>```\<newline>\<newline>```\<newline>\<newline>---\<newline>\<newline>File: README.md\<newline>\<newline>```\<newline>hi\<newline>```\<newline>\<newline>''"
    unfolding demo_filtered_default demo_kept_records demo_rendered by simp
  have "get_repo_structure demo_remote ''o'' ''r'' =
     Some (''Repository Structure for '' @ ''o'' @ ''/'' @ ''r'' @ '':\<newline>\<newline>''
           @ arr_join ''\<newline>'' (sort (map flat_file.path ?all)))"
    using t [THEN conjunct2, THEN conjunct2, THEN conjunct2, THEN conjunct2, THEN conjunct2]
    by (rule conjunct1)
  then have 4: "get_repo_structure demo_remote ''o'' ''r'' =
     Some ''Repository Structure for o/r:\<newline>\<newline>Makefile\<newline>README.md\<newline>node_modules/c.js\<newline>src/a.ts\<newline>src/b.js''"
    unfolding path_as_file demo_sort by simp
  from demo_serves demo_distinct o 1 2 3 4 show ?thesis
    unfolding demo_tree_def by (intro conjI)
qed

end
